theory Spec2Isabelle
  imports Complex_Main "HOL-Library.Finite_Map"
begin

section \<open>Python errors as values\<close>

datatype py_error = ZeroDivisionError | AssertionError | IndexError | RuntimeError | ValueError

section \<open>Divisible-width rounding (ghostnet.py, \<open>_make_divisible\<close>)\<close>




section \<open>Line dataset (FRAIL/data/dataset.py, \<open>CustomDataset\<close>)\<close>

text \<open>
  The text of a file is a \<open>string\<close>; a \<open>char\<close> stands for a code point below 256.
  \<open>open(file_path, "r")\<close> reads in text mode with universal newlines: a carriage
  return followed by a line feed, and a lone carriage return, both arrive as one line feed.
\<close>

abbreviation LF :: char where "LF \<equiv> CHR 0x0A"
abbreviation CR :: char where "CR \<equiv> CHR 0x0D"

fun universal_newlines :: "string \<Rightarrow> string" where
  "universal_newlines [] = []"
| "universal_newlines [c] = (if c = CR then [LF] else [c])"
| "universal_newlines (c # c' # cs) =
     (if c = CR \<and> c' = LF then LF # universal_newlines cs
      else if c = CR then LF # universal_newlines (c' # cs)
      else c # universal_newlines (c' # cs))"

text \<open>
  \<open>file.readlines()\<close>: the lines of the text in order, each with its terminating line
  feed; a last line without one is a line too, and the empty text has no line.
\<close>

fun readlines :: "string \<Rightarrow> string list" where
  "readlines [] = []"
| "readlines (c # cs) =
     (if c = LF then [c] # readlines cs
      else (case readlines cs of [] \<Rightarrow> [[c]] | l # ls \<Rightarrow> (c # l) # ls))"

text \<open>
  \<open>str.isspace\<close> on the code points below 256: tab to carriage return, the four
  separators \<open>0x1C\<close> to \<open>0x1F\<close>, the space, \<open>0x85\<close> and \<open>0xA0\<close>.
  \<open>str.strip()\<close> without argument removes such characters from both ends;
  \<open>str.rstrip()\<close> and \<open>str.lstrip()\<close> from one end.
\<close>

definition isspace :: "char \<Rightarrow> bool" where
  "isspace c = (of_char c \<in> set [9, 10, 11, 12, 13, 28, 29, 30, 31, 32, 133, 160 :: nat])"

definition lstrip :: "string \<Rightarrow> string" where
  "lstrip s = dropWhile isspace s"

definition rstrip :: "string \<Rightarrow> string" where
  "rstrip s = rev (dropWhile isspace (rev s))"

definition strip :: "string \<Rightarrow> string" where
  "strip s = rstrip (lstrip s)"

text \<open>
  \<^verbatim>\<open>
  class CustomDataset(Dataset):
      def __init__(self, file_path):
          with open(file_path, "r") as file:
              self.data = [line.strip() for line in file.readlines()]
      def __len__(self):
          return len(self.data)
      def __getitem__(self, idx):
          return self.data[idx]
  \<close>
  The constructor is given the text that \<open>open\<close> finds at the path.  Indexing a Python
  list counts a negative index from the end and raises \<open>IndexError\<close> out of range.
\<close>

record CustomDataset =
  data :: "string list"

definition CustomDataset_init :: "string \<Rightarrow> CustomDataset" where
  "CustomDataset_init text = \<lparr>data = map strip (readlines (universal_newlines text))\<rparr>"

definition CustomDataset_len :: "CustomDataset \<Rightarrow> nat" where
  "CustomDataset_len self = length (data self)"

definition CustomDataset_getitem :: "CustomDataset \<Rightarrow> int \<Rightarrow> py_error + string" where
  "CustomDataset_getitem self idx =
     (let n = int (length (data self)) in
      if 0 \<le> idx \<and> idx < n then Inr (data self ! nat idx)
      else if - n \<le> idx \<and> idx < 0 then Inr (data self ! nat (n + idx))
      else Inl IndexError)"

text \<open>
  The line count of a text, counted independently of \<open>readlines\<close>: one line for every
  line feed, and one more for a last line that is not terminated.
\<close>

definition line_count :: "string \<Rightarrow> nat" where
  "line_count s = length (filter (\<lambda>c. c = LF) s) + (if s \<noteq> [] \<and> last s \<noteq> LF then 1 else 0)"

section \<open>Tensors of the external library\<close>

text \<open>
  A tensor is its shape and its entries, read at a multi-index.  Entries are rationals:
  floats without rounding, infinities or NaN.  Nothing is said about the entries at an
  index outside the shape.
\<close>

record tensor =
  shape :: "nat list"
  entry :: "nat list \<Rightarrow> rat"


text \<open>
  Row-major position of an index in a shape and back; \<open>x.view(s)\<close> keeps the entries in
  row-major order and raises when the number of entries differs.
\<close>

definition ravel :: "nat list \<Rightarrow> nat list \<Rightarrow> nat" where
  "ravel s i = foldl (\<lambda>acc (d, k). acc * d + k) 0 (zip s i)"

fun unravel :: "nat list \<Rightarrow> nat \<Rightarrow> nat list" where
  "unravel [] k = []"
| "unravel (d # ds) k = (k div prod_list ds) # unravel ds (k mod prod_list ds)"

definition view :: "nat list \<Rightarrow> tensor \<Rightarrow> py_error + tensor" where
  "view s x =
     (if prod_list s = prod_list (shape x)
      then Inr \<lparr>shape = s, entry = (\<lambda>i. entry x (unravel (shape x) (ravel s i)))\<rparr>
      else Inl RuntimeError)"

text \<open>
  Broadcasting of a binary operator (\<open>x + y\<close>, \<open>x * y\<close>): the shorter shape is padded
  with leading ones, two sizes agree when they are equal or one of them is one, and an
  operand is read at index zero along an axis where its size is one.
\<close>

definition pad_shape :: "nat \<Rightarrow> nat list \<Rightarrow> nat list" where
  "pad_shape n s = replicate (n - length s) 1 @ s"

fun broadcast_shapes :: "nat list \<Rightarrow> nat list \<Rightarrow> py_error + nat list" where
  "broadcast_shapes [] [] = Inr []"
| "broadcast_shapes (a # as) (b # bs) =
     (if a = b \<or> b = 1 then
        (case broadcast_shapes as bs of Inl e \<Rightarrow> Inl e | Inr r \<Rightarrow> Inr (a # r))
      else if a = 1 then
        (case broadcast_shapes as bs of Inl e \<Rightarrow> Inl e | Inr r \<Rightarrow> Inr (b # r))
      else Inl RuntimeError)"
| "broadcast_shapes _ _ = Inl RuntimeError"

definition broadcast_index :: "nat list \<Rightarrow> nat list \<Rightarrow> nat list" where
  "broadcast_index s i =
     map2 (\<lambda>d k. if d = 1 then 0 else k) s (drop (length i - length s) i)"

definition broadcast2 :: "(rat \<Rightarrow> rat \<Rightarrow> rat) \<Rightarrow> tensor \<Rightarrow> tensor \<Rightarrow> py_error + tensor" where
  "broadcast2 f x y =
     (let n = max (length (shape x)) (length (shape y)) in
      case broadcast_shapes (pad_shape n (shape x)) (pad_shape n (shape y)) of
        Inl e \<Rightarrow> Inl e
      | Inr s \<Rightarrow>
          Inr \<lparr>shape = s,
               entry = (\<lambda>i. f (entry x (broadcast_index (shape x) i))
                               (entry y (broadcast_index (shape y) i)))\<rparr>)"

definition tensor_add :: "tensor \<Rightarrow> tensor \<Rightarrow> py_error + tensor" where
  "tensor_add = broadcast2 (\<lambda>a b. a + b)"

definition tensor_mul :: "tensor \<Rightarrow> tensor \<Rightarrow> py_error + tensor" where
  "tensor_mul = broadcast2 (\<lambda>a b. a * b)"

text \<open>\<open>torch.clamp(y, lo, hi)\<close> is \<open>min(max(y, lo), hi)\<close> at every entry.\<close>

definition clamp :: "tensor \<Rightarrow> rat \<Rightarrow> rat \<Rightarrow> tensor" where
  "clamp y lo hi = y\<lparr>entry := (\<lambda>i. min (max (entry y i) lo) hi)\<rparr>"

text \<open>
  \<open>torch.cat([x1, x2], dim=1)\<close> joins two tensors along the second axis; all other sizes
  must agree.  \<open>out[:, :oup, :, :]\<close> keeps the first \<open>oup\<close> positions of the second axis
  and needs at least four axes.
\<close>

definition cat1 :: "tensor \<Rightarrow> tensor \<Rightarrow> py_error + tensor" where
  "cat1 x1 x2 =
     (case (shape x1, shape x2) of
        (n1 # c1 # r1, n2 # c2 # r2) \<Rightarrow>
          if n1 = n2 \<and> r1 = r2 then
            Inr \<lparr>shape = n1 # (c1 + c2) # r1,
                 entry = (\<lambda>i. case i of
                             n # c # r \<Rightarrow> if c < c1 then entry x1 i else entry x2 (n # (c - c1) # r)
                           | _ \<Rightarrow> 0)\<rparr>
          else Inl RuntimeError
      | _ \<Rightarrow> Inl IndexError)"

definition slice_channels :: "nat \<Rightarrow> tensor \<Rightarrow> py_error + tensor" where
  "slice_channels oup x =
     (case shape x of
        n # c # h # w # r \<Rightarrow> Inr (x\<lparr>shape := n # min oup c # h # w # r\<rparr>)
      | _ \<Rightarrow> Inl IndexError)"

section \<open>Pretrained-weight loader (ghostnet.py, \<open>load_pretrained_weights\<close>)\<close>

text \<open>
  A state dictionary maps parameter names to tensors.  The live model is seen through its
  state dictionary, which \<open>model.state_dict()\<close> returns and \<open>model.load_state_dict\<close>
  writes.

  \<open>load_state_dict\<close> is the tensor library's, called with its default \<open>strict=True\<close>.
  It raises \<open>RuntimeError\<close> when the given dictionary misses a key of the model, has a
  key the model has not, or holds under a key a tensor whose shape differs from the
  parameter's; otherwise it copies every given tensor into the parameter of that name.
\<close>

type_synonym state_dict = "(string, tensor) fmap"

definition load_state_dict :: "state_dict \<Rightarrow> state_dict \<Rightarrow> py_error + state_dict" where
  "load_state_dict model sd =
     (if fmdom sd \<noteq> fmdom model then Inl RuntimeError
      else if fmpred (\<lambda>k v. case fmlookup model k of
                               Some p \<Rightarrow> shape v = shape p | None \<Rightarrow> True) sd
      then Inr (fmmap_keys (\<lambda>k p. case fmlookup sd k of
                                     Some v \<Rightarrow> p\<lparr>entry := entry v\<rparr> | None \<Rightarrow> p) model)
      else Inl RuntimeError)"

text \<open>
  \<^verbatim>\<open>
  def load_pretrained_weights(model, pretrained_weights_path):
      pretrained_dict = torch.load(pretrained_weights_path)
      model_dict = model.state_dict()
      pretrained_dict = {k: v for k, v in pretrained_dict.items() if k in model_dict}
      model_dict.update(pretrained_dict)
      model.load_state_dict(model_dict)
  \<close>
  The function is given the mapping that \<open>torch.load\<close> reads from the path, and returns
  the state dictionary of the model after the call.
\<close>

definition load_pretrained_weights :: "state_dict \<Rightarrow> state_dict \<Rightarrow> py_error + state_dict" where
  "load_pretrained_weights model loaded =
     (let pretrained_dict = loaded;
          model_dict = model;
          pretrained_dict = fmfilter (\<lambda>k. k |\<in>| fmdom model_dict) pretrained_dict;
          model_dict = model_dict ++\<^sub>f pretrained_dict
      in load_state_dict model model_dict)"

text \<open>
  Every tensor of the loaded mapping whose name the model has, has the shape of the
  model's parameter of that name.
\<close>

definition shapes_agree :: "state_dict \<Rightarrow> state_dict \<Rightarrow> bool" where
  "shapes_agree model loaded =
     fmpred (\<lambda>k v. case fmlookup model k of
                       Some p \<Rightarrow> shape v = shape p | None \<Rightarrow> True) loaded"

section \<open>Network modules (ghostnet.py)\<close>

text \<open>
  A module is the tree that its constructor builds.  The layers of the tensor library
  are leaves that record their constructor arguments: \<open>Conv2d\<close> its input channels,
  output channels, kernel size, stride, padding, groups and bias flag, \<open>BatchNorm2d\<close>
  its feature count, \<open>Linear\<close> its input and output features, \<open>AdaptiveAvgPool2d\<close>
  its output size.  \<open>Sequential\<close> holds its children in order; of the three classes of
  the repository, \<open>SELayer\<close> holds \<open>avg_pool\<close> and \<open>fc\<close>, \<open>GhostModule\<close> holds
  \<open>oup\<close>, \<open>primary_conv\<close> and \<open>cheap_operation\<close>, \<open>GhostBottleneck\<close> holds \<open>conv\<close>
  and \<open>shortcut\<close>.  The library's own checks of constructor
  arguments are not part of the repository and are not modelled.
\<close>

datatype module =
    Conv2d nat nat nat nat nat nat bool
  | BatchNorm2d nat
  | ReLU
  | Linear nat nat
  | AdaptiveAvgPool2d nat
  | Sequential "module list"
  | SELayer module module
  | GhostModule nat module module
  | GhostBottleneck module module



text \<open>
  \<^verbatim>\<open>
  class GhostModule(nn.Module):
      def __init__(self, inp, oup, kernel_size=1, ratio=2, dw_size=3, stride=1, relu=True):
          self.oup = oup
          init_channels = math.ceil(oup / ratio)
          new_channels = init_channels*(ratio-1)
          self.primary_conv = nn.Sequential(
              nn.Conv2d(inp, init_channels, kernel_size, stride, kernel_size//2, bias=False),
              nn.BatchNorm2d(init_channels),
              nn.ReLU(inplace=True) if relu else nn.Sequential(),
          )
          self.cheap_operation = nn.Sequential(
              nn.Conv2d(init_channels, new_channels, dw_size, 1, dw_size//2,
                        groups=init_channels, bias=False),
              nn.BatchNorm2d(new_channels),
              nn.ReLU(inplace=True) if relu else nn.Sequential(),
          )
  \<close>
  \<open>oup / ratio\<close> is a true division and raises on a zero ratio.
\<close>

definition GhostModule_init ::
  "nat \<Rightarrow> nat \<Rightarrow> nat \<Rightarrow> nat \<Rightarrow> nat \<Rightarrow> nat \<Rightarrow> bool \<Rightarrow> py_error + module" where
  "GhostModule_init inp oup kernel_size ratio dw_size stride relu =
     (if ratio = 0 then Inl ZeroDivisionError
      else
        let init_channels = nat \<lceil>(of_nat oup :: rat) / of_nat ratio\<rceil>;
            new_channels = init_channels * (ratio - 1)
        in Inr (GhostModule oup
                  (Sequential [Conv2d inp init_channels kernel_size stride (kernel_size div 2) 1 False,
                               BatchNorm2d init_channels,
                               if relu then ReLU else Sequential []])
                  (Sequential [Conv2d init_channels new_channels dw_size 1 (dw_size div 2)
                                 init_channels False,
                               BatchNorm2d new_channels,
                               if relu then ReLU else Sequential []])))"


text \<open>
  The forward pass.  What the library's layers do to a shape is fixed by their
  constructor arguments: a convolution maps \<open>(N, C_in, H, W)\<close> to
  \<open>(N, C_out, H', W')\<close> with \<open>H' = (H + 2 * padding - kernel) div stride + 1\<close>, a
  normalisation and a rectifier keep the shape, a linear layer replaces the last size, an
  adaptive average pool replaces the two spatial sizes.  The entries that a convolution, a
  normalisation, a linear layer or a pool computes depend on learned parameters and on
  the library's kernels; they are given by the parameter \<open>V\<close>, from the layer and its
  input.  The layers are modelled on four-dimensional (batched) inputs, in evaluation
  mode; a layer applied to a shape that does not fit its arguments raises.  A rectifier
  built with \<open>inplace=True\<close> overwrites the output of the layer before it, which nothing
  else reads, so the pass is a function of its input.

  The empty \<open>nn.Sequential()\<close> returns its input, a non-empty one feeds each child the
  result of the one before.  The three classes of the repository:
  \<^verbatim>\<open>
  class SELayer(nn.Module):
      def forward(self, x):
          b, c, _, _ = x.size()
          y = self.avg_pool(x).view(b, c)
          y = self.fc(y).view(b, c, 1, 1)
          y = torch.clamp(y, 0, 1)
          return x * y

  class GhostModule(nn.Module):
      def forward(self, x):
          x1 = self.primary_conv(x)
          x2 = self.cheap_operation(x1)
          out = torch.cat([x1, x2], dim=1)
          return out[:, :self.oup, :, :]

  class GhostBottleneck(nn.Module):
      def forward(self, x):
          return self.conv(x) + self.shortcut(x)
  \<close>
\<close>

definition conv_out :: "nat \<Rightarrow> nat \<Rightarrow> nat \<Rightarrow> nat \<Rightarrow> nat" where
  "conv_out n kernel_size stride padding = (n + 2 * padding - kernel_size) div stride + 1"

type_synonym kernels = "module \<Rightarrow> tensor \<Rightarrow> nat list \<Rightarrow> rat"

fun forward :: "kernels \<Rightarrow> module \<Rightarrow> tensor \<Rightarrow> py_error + tensor"
  and forward_seq :: "kernels \<Rightarrow> module list \<Rightarrow> tensor \<Rightarrow> py_error + tensor" where
  "forward V (Conv2d cin cout k s p g b) x =
     (case shape x of
        [n, c, h, w] \<Rightarrow>
          if c = cin \<and> 0 < s \<and> 0 < k \<and> k \<le> h + 2 * p \<and> k \<le> w + 2 * p
          then Inr \<lparr>shape = [n, cout, conv_out h k s p, conv_out w k s p],
                    entry = V (Conv2d cin cout k s p g b) x\<rparr>
          else Inl RuntimeError
      | _ \<Rightarrow> Inl RuntimeError)"
| "forward V (BatchNorm2d num_features) x =
     (case shape x of
        [n, c, h, w] \<Rightarrow>
          if c = num_features then Inr (x\<lparr>entry := V (BatchNorm2d num_features) x\<rparr>)
          else Inl RuntimeError
      | _ \<Rightarrow> Inl ValueError)"
| "forward V ReLU x = Inr (x\<lparr>entry := (\<lambda>i. max 0 (entry x i))\<rparr>)"
| "forward V (Linear in_features out_features) x =
     (if shape x \<noteq> [] \<and> last (shape x) = in_features
      then Inr \<lparr>shape = butlast (shape x) @ [out_features],
                entry = V (Linear in_features out_features) x\<rparr>
      else Inl RuntimeError)"
| "forward V (AdaptiveAvgPool2d output_size) x =
     (case shape x of
        [n, c, h, w] \<Rightarrow>
          if 0 < c \<and> 0 < h \<and> 0 < w
          then Inr \<lparr>shape = [n, c, output_size, output_size],
                    entry = V (AdaptiveAvgPool2d output_size) x\<rparr>
          else Inl RuntimeError
      | _ \<Rightarrow> Inl RuntimeError)"
| "forward V (Sequential ms) x = forward_seq V ms x"
| "forward V (SELayer avg_pool fc) x =
     (case shape x of
        [b, c, h, w] \<Rightarrow>
          (case forward V avg_pool x of Inl e \<Rightarrow> Inl e | Inr y \<Rightarrow>
           case view [b, c] y of Inl e \<Rightarrow> Inl e | Inr y \<Rightarrow>
           case forward V fc y of Inl e \<Rightarrow> Inl e | Inr y \<Rightarrow>
           case view [b, c, 1, 1] y of Inl e \<Rightarrow> Inl e | Inr y \<Rightarrow>
           tensor_mul x (clamp y 0 1))
      | _ \<Rightarrow> Inl ValueError)"
| "forward V (GhostModule oup primary_conv cheap_operation) x =
     (case forward V primary_conv x of Inl e \<Rightarrow> Inl e | Inr x1 \<Rightarrow>
      case forward V cheap_operation x1 of Inl e \<Rightarrow> Inl e | Inr x2 \<Rightarrow>
      case cat1 x1 x2 of Inl e \<Rightarrow> Inl e | Inr out \<Rightarrow>
      slice_channels oup out)"
| "forward V (GhostBottleneck conv shortcut) x =
     (case forward V conv x of Inl e \<Rightarrow> Inl e | Inr a \<Rightarrow>
      case forward V shortcut x of Inl e \<Rightarrow> Inl e | Inr b \<Rightarrow>
      tensor_add a b)"
| "forward_seq V [] x = Inr x"
| "forward_seq V (m # ms) x =
     (case forward V m x of Inl e \<Rightarrow> Inl e | Inr y \<Rightarrow> forward_seq V ms y)"

section \<open>Properties of the divisible-width rounding\<close>


















section \<open>Properties of the line dataset\<close>

lemma readlines_Nil_iff: "readlines s = [] \<longleftrightarrow> s = []"
  by (cases s) (auto split: list.splits)

lemma length_readlines: "length (readlines s) = line_count s"
proof (induction s)
  case Nil
  then show ?case by (simp add: line_count_def)
next
  case (Cons c cs)
  show ?case
  proof (cases cs)
    case Nil
    then show ?thesis by (simp add: line_count_def)
  next
    case (Cons c' cs')
    then have ne: "readlines cs \<noteq> []" using readlines_Nil_iff[of cs] by blast
    then obtain l ls where l: "readlines cs = l # ls" by (cases "readlines cs") auto
    have "c \<noteq> LF \<Longrightarrow> length (readlines (c # cs)) = length (readlines cs)"
      using l by simp
    moreover have "c = LF \<Longrightarrow> length (readlines (c # cs)) = length (readlines cs) + 1"
      by simp
    moreover have "c \<noteq> LF \<Longrightarrow> line_count (c # cs) = line_count cs"
      using Cons by (simp add: line_count_def)
    moreover have "c = LF \<Longrightarrow> line_count (c # cs) = line_count cs + 1"
      using Cons by (simp add: line_count_def)
    ultimately show ?thesis using Cons.IH by (cases "c = LF") simp_all
  qed
qed

text \<open>
  Claim C4, as amended.  For every text file the dataset has as many elements as the
  file has lines, and for every index \<open>i\<close> in range element access returns line \<open>i\<close>
  with its leading and its trailing whitespace removed.
\<close>

theorem C4_dataset_lines_stripped:
  "CustomDataset_len (CustomDataset_init text) = line_count (universal_newlines text)
   \<and> (0 \<le> i \<and> i < int (line_count (universal_newlines text)) \<longrightarrow>
        CustomDataset_getitem (CustomDataset_init text) i
          = Inr (strip (readlines (universal_newlines text) ! nat i)))"
proof -
  let ?lines = "readlines (universal_newlines text)"
  have n: "length ?lines = line_count (universal_newlines text)"
    by (rule length_readlines)
  have "CustomDataset_len (CustomDataset_init text) = line_count (universal_newlines text)"
    using n by (simp add: CustomDataset_init_def CustomDataset_len_def)
  moreover have "CustomDataset_getitem (CustomDataset_init text) i = Inr (strip (?lines ! nat i))"
    if "0 \<le> i" "i < int (line_count (universal_newlines text))"
  proof -
    have "nat i < length ?lines" using that n by linarith
    then have "map strip ?lines ! nat i = strip (?lines ! nat i)" by (rule nth_map)
    then show ?thesis using that n
      by (simp add: CustomDataset_getitem_def CustomDataset_init_def Let_def)
  qed
  ultimately show ?thesis by blast
qed

theorem C4_witness:
  "CustomDataset_len (CustomDataset_init (''  ab '' @ [CR, LF] @ '' cd'')) = 2
   \<and> CustomDataset_getitem (CustomDataset_init (''  ab '' @ [CR, LF] @ '' cd'')) 1 = Inr ''cd''"
  using C4_dataset_lines_stripped [of "''  ab '' @ [CR, LF] @ '' cd''" 1]
  by (simp add: line_count_def strip_def lstrip_def rstrip_def isspace_def)

text \<open>
  The claim as stated fails on a line that starts with whitespace: element access returns
  \<open>a\<close> for the line \<open> a\<close>, where removing only the trailing whitespace leaves \<open> a\<close>.
\<close>

theorem C4_counterexample:
  "CustomDataset_getitem (CustomDataset_init ('' a'' @ [LF])) 0 = Inr ''a''
   \<and> rstrip (readlines (universal_newlines ('' a'' @ [LF])) ! 0) = '' a''"
  by (simp add: CustomDataset_getitem_def CustomDataset_init_def strip_def lstrip_def
      rstrip_def isspace_def)

section \<open>Properties of the pretrained-weight loader\<close>

text \<open>The dictionary handed to \<open>load_state_dict\<close>: the model's, overwritten on common keys.\<close>

lemma merged_lookup:
  "fmlookup (model ++\<^sub>f fmfilter (\<lambda>k. k |\<in>| fmdom model) loaded) k =
     (case fmlookup model k of
        None \<Rightarrow> None
      | Some p \<Rightarrow> (case fmlookup loaded k of None \<Rightarrow> Some p | Some v \<Rightarrow> Some v))"
proof (cases "fmlookup model k")
  case None
  then have "k |\<notin>| fmdom model" by (simp add: fmdom_notI)
  then show ?thesis using None by simp
next
  case (Some p)
  then have m: "k |\<in>| fmdom model" by (simp add: fmdomI)
  show ?thesis
  proof (cases "fmlookup loaded k")
    case None
    then have "k |\<notin>| fmdom loaded" by (simp add: fmdom_notI)
    then show ?thesis using Some None m by simp
  next
    case (Some v)
    then have "k |\<in>| fmdom loaded" by (simp add: fmdomI)
    then show ?thesis using \<open>fmlookup model k = Some p\<close> Some m by simp
  qed
qed

lemma load_pretrained_weights_agreeing:
  assumes "\<forall>k p v. fmlookup model k = Some p \<and> fmlookup loaded k = Some v \<longrightarrow> shape v = shape p"
  shows "\<exists>model'. load_pretrained_weights model loaded = Inr model'
          \<and> fmdom model' = fmdom model
          \<and> (\<forall>k. fmlookup model' k =
                (if k |\<in>| fmdom model \<and> k |\<in>| fmdom loaded
                 then fmlookup loaded k else fmlookup model k))"
proof -
  let ?pre = "fmfilter (\<lambda>k. k |\<in>| fmdom model) loaded"
  let ?sd = "model ++\<^sub>f ?pre"
  let ?f = "\<lambda>k p. case fmlookup ?sd k of Some v \<Rightarrow> p\<lparr>entry := entry v\<rparr> | None \<Rightarrow> p"
  let ?m' = "fmmap_keys ?f model"
  have dom: "fmdom ?sd = fmdom model" by auto
  have pred: "fmpred (\<lambda>k v. case fmlookup model k of
                               Some p \<Rightarrow> shape v = shape p | None \<Rightarrow> True) ?sd"
  proof (rule fmpredI)
    fix k v
    assume a: "fmlookup ?sd k = Some v"
    show "case fmlookup model k of Some p \<Rightarrow> shape v = shape p | None \<Rightarrow> True"
    proof (cases "fmlookup model k")
      case None
      then show ?thesis by simp
    next
      case (Some p)
      show ?thesis
      proof (cases "fmlookup loaded k")
        case None
        with Some a have "v = p" by (simp only: merged_lookup) simp
        then show ?thesis using Some by simp
      next
        case (Some w)
        with \<open>fmlookup model k = Some p\<close> a have "v = w" by (simp only: merged_lookup) simp
        then show ?thesis using \<open>fmlookup model k = Some p\<close> Some assms by simp
      qed
    qed
  qed
  have r: "load_pretrained_weights model loaded = Inr ?m'"
    unfolding load_pretrained_weights_def load_state_dict_def Let_def
    using dom pred by (simp only: if_True if_False simp_thms)
  have d: "fmdom ?m' = fmdom model" by simp
  have l: "fmlookup ?m' k =
             (if k |\<in>| fmdom model \<and> k |\<in>| fmdom loaded
              then fmlookup loaded k else fmlookup model k)" for k
  proof (cases "fmlookup model k")
    case None
    then have "k |\<notin>| fmdom model" by (simp add: fmdom_notI)
    then show ?thesis using None by simp
  next
    case (Some p)
    then have m: "k |\<in>| fmdom model" by (simp add: fmdomI)
    have e: "fmlookup ?m' k = Some (?f k p)" using Some by simp
    show ?thesis
    proof (cases "fmlookup loaded k")
      case None
      then have n: "k |\<notin>| fmdom loaded" by (simp add: fmdom_notI)
      have "fmlookup ?sd k = Some p" using Some None by (simp only: merged_lookup) simp
      then have "?f k p = p" by simp
      then show ?thesis using e n Some by simp
    next
      case (Some w)
      then have n: "k |\<in>| fmdom loaded" by (simp add: fmdomI)
      have "fmlookup ?sd k = Some w"
        using \<open>fmlookup model k = Some p\<close> Some by (simp only: merged_lookup) simp
      then have "?f k p = p\<lparr>entry := entry w\<rparr>" by simp
      moreover have "shape w = shape p"
        using assms \<open>fmlookup model k = Some p\<close> Some by blast
      ultimately have "?f k p = w" by simp
      then show ?thesis using e n m Some by simp
    qed
  qed
  show ?thesis using r d l by blast
qed

text \<open>
  Claim C5, as amended.  For every loaded weight mapping and every live model such that
  the tensors under their common keys have equal shapes, the loader raises nothing, keeps
  the model's key set (keys that only the loaded mapping has are discarded), gives every
  parameter whose key is in both mappings the loaded tensor, and leaves every parameter
  whose key the loaded mapping lacks unchanged.
\<close>

theorem C5_load_pretrained_weights_partial:
  assumes "shapes_agree model loaded"
  shows "\<exists>model'. load_pretrained_weights model loaded = Inr model'
          \<and> fmdom model' = fmdom model
          \<and> (\<forall>k. fmlookup model' k =
                (if k |\<in>| fmdom model \<and> k |\<in>| fmdom loaded
                 then fmlookup loaded k else fmlookup model k))"
proof (rule load_pretrained_weights_agreeing)
  show "\<forall>k p v. fmlookup model k = Some p \<and> fmlookup loaded k = Some v \<longrightarrow> shape v = shape p"
  proof (intro allI impI)
    fix k p v
    assume a: "fmlookup model k = Some p \<and> fmlookup loaded k = Some v"
    from assms have "case fmlookup model k of Some p \<Rightarrow> shape v = shape p | None \<Rightarrow> True"
      using a unfolding shapes_agree_def by (auto dest: fmpredD)
    with a show "shape v = shape p" by simp
  qed
qed

theorem C5_witness:
  "\<exists>model'.
     load_pretrained_weights
       (fmupd ''w'' \<lparr>shape = [2], entry = (\<lambda>i. 0)\<rparr>
         (fmupd ''b'' \<lparr>shape = [1], entry = (\<lambda>i. 0)\<rparr> fmempty))
       (fmupd ''w'' \<lparr>shape = [2], entry = (\<lambda>i. 1)\<rparr>
         (fmupd ''extra'' \<lparr>shape = [5], entry = (\<lambda>i. 1)\<rparr> fmempty)) = Inr model'
     \<and> fmlookup model' ''w'' = Some \<lparr>shape = [2], entry = (\<lambda>i. 1)\<rparr>
     \<and> fmlookup model' ''b'' = Some \<lparr>shape = [1], entry = (\<lambda>i. 0)\<rparr>
     \<and> fmlookup model' ''extra'' = None"
proof -
  let ?model = "fmupd ''w'' \<lparr>shape = [2], entry = (\<lambda>i. 0)\<rparr>
         (fmupd ''b'' \<lparr>shape = [1], entry = (\<lambda>i. 0)\<rparr> fmempty)"
  let ?loaded = "fmupd ''w'' \<lparr>shape = [2], entry = (\<lambda>i. 1)\<rparr>
         (fmupd ''extra'' \<lparr>shape = [5], entry = (\<lambda>i. 1)\<rparr> fmempty)"
  have h: "shapes_agree ?model ?loaded"
    unfolding shapes_agree_def by (intro fmpred_upd fmpred_empty) simp_all
  from C5_load_pretrained_weights_partial [OF h] obtain model' where
    r: "load_pretrained_weights ?model ?loaded = Inr model'"
    and l: "\<forall>k. fmlookup model' k =
                (if k |\<in>| fmdom ?model \<and> k |\<in>| fmdom ?loaded
                 then fmlookup ?loaded k else fmlookup ?model k)"
    by blast
  have "fmlookup model' ''w'' = Some \<lparr>shape = [2], entry = (\<lambda>i. 1)\<rparr>"
    using l by simp
  moreover have "fmlookup model' ''b'' = Some \<lparr>shape = [1], entry = (\<lambda>i. 0)\<rparr>"
    using l by simp
  moreover have "fmlookup model' ''extra'' = None"
    using l by simp
  ultimately show ?thesis using r by blast
qed

text \<open>
  The claim as stated fails on a shape mismatch: a loaded tensor of shape \<open>(3)\<close> under
  the name of a parameter of shape \<open>(2)\<close> passes the key filter and is rejected by
  \<open>load_state_dict\<close>.
\<close>

theorem C5_counterexample:
  "load_pretrained_weights
     (fmupd ''w'' \<lparr>shape = [2], entry = (\<lambda>i. 0)\<rparr> fmempty)
     (fmupd ''w'' \<lparr>shape = [3], entry = (\<lambda>i. 1)\<rparr> fmempty) = Inl RuntimeError"
  by (simp add: load_pretrained_weights_def load_state_dict_def Let_def fmpred_iff)

section \<open>Properties of the tensor operations\<close>






section \<open>Properties of the Ghost module\<close>

lemma ceil_half_double: "oup \<le> 2 * nat \<lceil>(of_nat oup :: rat) / of_nat 2\<rceil>"
proof -
  have "(of_nat oup :: rat) / 2 \<le> of_int \<lceil>(of_nat oup :: rat) / 2\<rceil>" by (rule le_of_int_ceiling)
  then have "(of_nat oup :: rat) \<le> 2 * of_int \<lceil>(of_nat oup :: rat) / 2\<rceil>" by linarith
  then have "(of_int (int oup) :: rat) \<le> of_int (2 * \<lceil>(of_nat oup :: rat) / 2\<rceil>)" by simp
  then have "int oup \<le> 2 * \<lceil>(of_nat oup :: rat) / 2\<rceil>" by (simp only: of_int_le_iff)
  then show ?thesis by simp
qed

lemma forward_Conv2d_Inr:
  assumes "forward V (Conv2d cin cout k s p g b) x = Inr y"
  shows "\<exists>n h w. shape x = [n, cin, h, w]
           \<and> shape y = [n, cout, conv_out h k s p, conv_out w k s p]"
  using assms by (auto split: list.splits if_splits)

lemma forward_BatchNorm2d_Inr:
  assumes "forward V (BatchNorm2d f) x = Inr y"
  shows "shape y = shape x \<and> (\<exists>n h w. shape x = [n, f, h, w])"
  using assms by (auto split: list.splits if_splits)

lemma conv_bn_act_Inr:
  assumes "forward_seq V [Conv2d cin cout k s p g b, BatchNorm2d cout,
             if relu then ReLU else Sequential []] x = Inr y"
  shows "\<exists>n h w. shape x = [n, cin, h, w]
           \<and> shape y = [n, cout, conv_out h k s p, conv_out w k s p]"
proof -
  from assms obtain y1 where y1: "forward V (Conv2d cin cout k s p g b) x = Inr y1"
    and r1: "forward_seq V [BatchNorm2d cout, if relu then ReLU else Sequential []] y1 = Inr y"
    by (cases "forward V (Conv2d cin cout k s p g b) x") (simp_all del: forward.simps)
  from r1 obtain y2 where y2: "forward V (BatchNorm2d cout) y1 = Inr y2"
    and r2: "forward_seq V [if relu then ReLU else Sequential []] y2 = Inr y"
    by (cases "forward V (BatchNorm2d cout) y1") (simp_all del: forward.simps)
  from r2 have "shape y = shape y2" by (auto split: if_splits)
  with forward_BatchNorm2d_Inr[OF y2] forward_Conv2d_Inr[OF y1] show ?thesis by auto
qed

lemma conv_bn_act_ok:
  assumes "shape x = [n, cin, h, w]" "0 < s" "0 < k" "k \<le> h + 2 * p" "k \<le> w + 2 * p"
  shows "\<exists>y. forward_seq V [Conv2d cin cout k s p g b, BatchNorm2d cout,
               if relu then ReLU else Sequential []] x = Inr y
           \<and> shape y = [n, cout, conv_out h k s p, conv_out w k s p]"
  using assms by simp

lemma conv_out_pos: "0 < conv_out n k s p"
  by (simp add: conv_out_def)

lemma conv_out_same: "odd k \<Longrightarrow> 0 < n \<Longrightarrow> conv_out n k 1 (k div 2) = n"
  by (auto simp: conv_out_def elim!: oddE)

lemma GhostModule_forward_Inr:
  assumes "GhostModule_init inp oup kernel_size 2 dw_size stride relu = Inr gm"
    and "forward V gm x = Inr out"
  shows "\<exists>n h w. shape out = [n, oup, h, w]"
proof -
  let ?init = "nat \<lceil>(of_nat oup :: rat) / of_nat 2\<rceil>"
  let ?primary = "[Conv2d inp ?init kernel_size stride (kernel_size div 2) 1 False,
                   BatchNorm2d ?init, if relu then ReLU else Sequential []]"
  let ?cheap = "[Conv2d ?init (?init * (2 - 1)) dw_size 1 (dw_size div 2) ?init False,
                 BatchNorm2d (?init * (2 - 1)), if relu then ReLU else Sequential []]"
  have gm: "gm = GhostModule oup (Sequential ?primary) (Sequential ?cheap)"
    using assms(1) by (simp add: GhostModule_init_def Let_def)
  from assms(2) obtain x1 where x1: "forward_seq V ?primary x = Inr x1"
    and r1: "(case forward_seq V ?cheap x1 of Inl e \<Rightarrow> Inl e | Inr x2 \<Rightarrow>
               case cat1 x1 x2 of Inl e \<Rightarrow> Inl e | Inr out \<Rightarrow> slice_channels oup out) = Inr out"
    unfolding gm by (cases "forward_seq V ?primary x") (simp_all del: forward_seq.simps)
  from r1 obtain x2 where x2: "forward_seq V ?cheap x1 = Inr x2"
    and r2: "(case cat1 x1 x2 of Inl e \<Rightarrow> Inl e | Inr out \<Rightarrow> slice_channels oup out) = Inr out"
    by (cases "forward_seq V ?cheap x1") (simp_all del: forward_seq.simps)
  from r2 obtain c where c: "cat1 x1 x2 = Inr c" and sl: "slice_channels oup c = Inr out"
    by (cases "cat1 x1 x2") simp_all
  from conv_bn_act_Inr[OF x1] obtain n h w where
    s1: "shape x1 = [n, ?init, conv_out h kernel_size stride (kernel_size div 2),
                     conv_out w kernel_size stride (kernel_size div 2)]" by auto
  from conv_bn_act_Inr[OF x2] obtain n' h' w' where
    s2: "shape x2 = [n', ?init * (2 - 1), h', w']" by auto
  from c s1 s2 have sc: "shape c = [n, ?init + ?init * (2 - 1), conv_out h kernel_size stride (kernel_size div 2),
                     conv_out w kernel_size stride (kernel_size div 2)]"
    by (auto simp: cat1_def split: if_splits)
  have "min oup (?init + ?init * (2 - 1)) = oup" using ceil_half_double[of oup] by simp
  with sl sc show ?thesis by (auto simp: slice_channels_def)
qed

lemma GhostModule_forward_parts:
  assumes "shape x = [n, inp, h, w]" "0 < h" "0 < w" "0 < kernel_size" "0 < stride" "odd dw_size"
  shows "\<exists>primary cheap x1 x2 out.
           GhostModule_init inp oup kernel_size 2 dw_size stride relu
             = Inr (GhostModule oup primary cheap)
         \<and> forward V primary x = Inr x1 \<and> forward V cheap x1 = Inr x2
         \<and> forward V (GhostModule oup primary cheap) x = Inr out
         \<and> shape out = [n, oup, conv_out h kernel_size stride (kernel_size div 2),
                            conv_out w kernel_size stride (kernel_size div 2)]
         \<and> (\<forall>b c i j. entry out [b, c, i, j] =
               (if c < nat \<lceil>(of_nat oup :: rat) / of_nat 2\<rceil> then entry x1 [b, c, i, j]
                else entry x2 [b, c - nat \<lceil>(of_nat oup :: rat) / of_nat 2\<rceil>, i, j]))"
proof -
  let ?init = "nat \<lceil>(of_nat oup :: rat) / of_nat 2\<rceil>"
  let ?h = "conv_out h kernel_size stride (kernel_size div 2)"
  let ?w = "conv_out w kernel_size stride (kernel_size div 2)"
  let ?primary = "[Conv2d inp ?init kernel_size stride (kernel_size div 2) 1 False,
                   BatchNorm2d ?init, if relu then ReLU else Sequential []]"
  let ?cheap = "[Conv2d ?init (?init * (2 - 1)) dw_size 1 (dw_size div 2) ?init False,
                 BatchNorm2d (?init * (2 - 1)), if relu then ReLU else Sequential []]"
  have gm: "GhostModule_init inp oup kernel_size 2 dw_size stride relu
              = Inr (GhostModule oup (Sequential ?primary) (Sequential ?cheap))"
    by (simp add: GhostModule_init_def Let_def)
  have kh: "kernel_size \<le> h + 2 * (kernel_size div 2)" using assms(2) by linarith
  have kw: "kernel_size \<le> w + 2 * (kernel_size div 2)" using assms(3) by linarith
  from conv_bn_act_ok[OF assms(1) assms(5) assms(4) kh kw]
  obtain x1 where x1: "forward_seq V ?primary x = Inr x1" and s1: "shape x1 = [n, ?init, ?h, ?w]"
    by blast
  have dpos: "0 < dw_size" using assms(6) by (auto elim: oddE)
  have dh: "dw_size \<le> ?h + 2 * (dw_size div 2)"
    using conv_out_pos[of h kernel_size stride "kernel_size div 2"] by linarith
  have dw: "dw_size \<le> ?w + 2 * (dw_size div 2)"
    using conv_out_pos[of w kernel_size stride "kernel_size div 2"] by linarith
  have one: "0 < (1::nat)" by simp
  from conv_bn_act_ok[where V = V and cout = "?init * (2 - 1)" and g = ?init and b = False
      and relu = relu, OF s1 one dpos dh dw]
  obtain x2 where x2: "forward_seq V ?cheap x1 = Inr x2"
    and s2: "shape x2 = [n, ?init * (2 - 1), conv_out ?h dw_size 1 (dw_size div 2),
                         conv_out ?w dw_size 1 (dw_size div 2)]"
    by blast
  have s2': "shape x2 = [n, ?init * (2 - 1), ?h, ?w]"
    using s2 conv_out_same[OF assms(6) conv_out_pos] by simp
  obtain c where c: "cat1 x1 x2 = Inr c" and sc: "shape c = [n, ?init + ?init * (2 - 1), ?h, ?w]"
    and ec: "\<forall>b k i j. entry c [b, k, i, j] =
               (if k < ?init then entry x1 [b, k, i, j] else entry x2 [b, k - ?init, i, j])"
    using s1 s2' by (simp add: cat1_def)
  have m: "min oup (?init + ?init * (2 - 1)) = oup" using ceil_half_double[of oup] by simp
  obtain out where out: "slice_channels oup c = Inr out" and so: "shape out = [n, oup, ?h, ?w]"
    and eo: "entry out = entry c"
    using sc m by (simp add: slice_channels_def)
  have f: "forward V (GhostModule oup (Sequential ?primary) (Sequential ?cheap)) x = Inr out"
    using x1 x2 c out by (simp del: forward_seq.simps)
  have p1: "forward V (Sequential ?primary) x = Inr x1" using x1 by (simp only: forward.simps(6))
  have p2: "forward V (Sequential ?cheap) x1 = Inr x2" using x2 by (simp only: forward.simps(6))
  show ?thesis
    using gm p1 p2 f so ec eo
    by (intro exI[of _ "Sequential ?primary"] exI[of _ "Sequential ?cheap"] exI[of _ x1]
        exI[of _ x2] exI[of _ out]) simp
qed


text \<open>
  Claim C2.  For every output width \<open>oup \<ge> 1\<close>, a \<open>GhostModule\<close> constructed with
  \<open>ratio = 2\<close> returns, on every input of compatible shape, a tensor whose channel
  size is exactly \<open>oup\<close>: the primary channels followed by the derived ones, cut after
  the first \<open>oup\<close>.  On a batch of \<open>inp\<close>-channel maps of positive height and width,
  with positive kernel size and stride and an odd depthwise kernel, the forward pass
  returns; and whenever it returns, for whatever arguments and input, the second size of
  the result is \<open>oup\<close>.
\<close>

theorem C2_GhostModule_output_channels:
  "(1 \<le> oup \<and> shape x = [n, inp, h, w] \<and> 0 < h \<and> 0 < w
      \<and> 0 < kernel_size \<and> 0 < stride \<and> odd dw_size \<longrightarrow>
      (\<exists>primary cheap x1 x2 out.
           GhostModule_init inp oup kernel_size 2 dw_size stride relu
             = Inr (GhostModule oup primary cheap)
         \<and> forward V primary x = Inr x1 \<and> forward V cheap x1 = Inr x2
         \<and> forward V (GhostModule oup primary cheap) x = Inr out
         \<and> shape out = [n, oup, conv_out h kernel_size stride (kernel_size div 2),
                            conv_out w kernel_size stride (kernel_size div 2)]
         \<and> (\<forall>b c i j. entry out [b, c, i, j] =
               (if c < nat \<lceil>(of_nat oup :: rat) / of_nat 2\<rceil> then entry x1 [b, c, i, j]
                else entry x2 [b, c - nat \<lceil>(of_nat oup :: rat) / of_nat 2\<rceil>, i, j]))))
   \<and> (1 \<le> oup \<and> GhostModule_init inp oup kernel_size 2 dw_size stride relu = Inr gm'
      \<and> forward V gm' x = Inr out' \<longrightarrow>
      (\<exists>n' h' w'. shape out' = [n', oup, h', w']))"
  using GhostModule_forward_parts[of x n inp h w kernel_size stride dw_size oup relu V]
    GhostModule_forward_Inr[of inp oup kernel_size dw_size stride relu gm' V x out']
  by blast

theorem C2_witness:
  "\<exists>primary cheap out. GhostModule_init 3 5 1 2 3 1 True = Inr (GhostModule 5 primary cheap)
     \<and> forward (\<lambda>m t i. 0) (GhostModule 5 primary cheap)
          \<lparr>shape = [2, 3, 8, 8], entry = (\<lambda>i. 1)\<rparr> = Inr out
     \<and> shape out = [2, 5, 8, 8]"
proof -
  note inst = C2_GhostModule_output_channels
    [where oup = 5 and x = "\<lparr>shape = [2, 3, 8, 8], entry = (\<lambda>i. 1)\<rparr>" and n = 2 and inp = 3
      and h = 8 and w = 8 and kernel_size = 1 and stride = 1 and dw_size = 3 and relu = True
      and V = "\<lambda>m t i. 0"]
  have hyp: "1 \<le> (5::nat) \<and> shape \<lparr>shape = [2, 3, 8, 8], entry = (\<lambda>i. 1)\<rparr> = [2, 3, 8, 8]
      \<and> 0 < (8::nat) \<and> 0 < (8::nat) \<and> 0 < (1::nat) \<and> 0 < (1::nat) \<and> odd (3::nat)"
    by simp
  have "conv_out 8 1 1 (1 div 2) = 8" by (simp add: conv_out_def)
  with inst hyp show ?thesis by metis
qed

section \<open>Properties of the squeeze-and-excite gate\<close>







section \<open>Properties of the Ghost bottleneck\<close>














end
